theory Spec2Isabelle
  imports Complex_Main
begin

section \<open>The leveling block of \<open>updatePet\<close>\<close>

text \<open>
  Source: \<^verbatim>\<open>src/server/controllers/folderController.js\<close>, \<open>updatePet\<close>, lines 299-326.
  JavaScript numbers are modelled as exact reals: the rounding of IEEE-754 doubles is
  not part of the model. \<open>Math.pow(level, 1.5)\<close> is \<open>level powr 1.5\<close> for a level that
  is not negative; for a negative level it is NaN, and every comparison with NaN is
  false, which the guard \<open>0 \<le> newLevel\<close> of the first loop writes out.

  The program computes with doubles. The model of the handler below hands the block
  numbers below \<open>2^53\<close> only, and of the block only such statements are proved as
  do not depend on how a sum or the threshold is rounded: which loop runs, where it
  stops, and on which side of the threshold the points end. What the block returns
  after a delta and the opposite delta does depend on the rounding and is not stated.
\<close>

definition BASE_EXP :: real where
  "BASE_EXP = 100"

definition EXPONENT :: real where
  "EXPONENT = 1.5"

definition calculateRequiredExp :: "real \<Rightarrow> real" where
  "calculateRequiredExp level = BASE_EXP * level powr EXPONENT"

lemma calculateRequiredExp_nonneg: "0 \<le> calculateRequiredExp level"
  by (simp add: calculateRequiredExp_def BASE_EXP_def)

lemma calculateRequiredExp_ge_100:
  assumes "1 \<le> level"
  shows "100 \<le> calculateRequiredExp level"
proof -
  have "1 \<le> level powr EXPONENT"
    using assms by (simp add: EXPONENT_def ge_one_powr_ge_zero)
  then show ?thesis
    by (simp add: calculateRequiredExp_def BASE_EXP_def)
qed

lemma calculateRequiredExp_1: "calculateRequiredExp 1 = 100"
  by (simp add: calculateRequiredExp_def BASE_EXP_def)

text \<open>
  The level-up loop, lines 310-314. The loop variable \<open>maxExp\<close> always holds
  \<open>calculateRequiredExp(newLevel)\<close> when the condition is tested (it is set so at line
  307 and again at line 313), so the model recomputes it from \<open>newLevel\<close>.
\<close>

function levelUp :: "real \<Rightarrow> real \<Rightarrow> real \<times> real" where
  "levelUp totalExp newLevel =
     (if 0 \<le> newLevel \<and> calculateRequiredExp newLevel \<le> totalExp
      then levelUp (totalExp - calculateRequiredExp newLevel) (newLevel + 1)
      else (totalExp, newLevel))"
  by pat_completeness auto
termination
proof (relation "measure (\<lambda>(t, l). nat \<lceil>t / 100\<rceil> + (if l < 1 then 1 else 0))")
  show "wf (measure (\<lambda>(t, l). nat \<lceil>t / 100\<rceil> + (if l < 1 then 1 else 0)))"
    by simp
next
  fix totalExp newLevel :: real
  assume a: "0 \<le> newLevel \<and> calculateRequiredExp newLevel \<le> totalExp"
  show "((totalExp - calculateRequiredExp newLevel, newLevel + 1), (totalExp, newLevel))
        \<in> measure (\<lambda>(t, l). nat \<lceil>t / 100\<rceil> + (if l < 1 then 1 else 0))"
  proof (cases "newLevel < 1")
    case True
    have "totalExp - calculateRequiredExp newLevel \<le> totalExp"
      using calculateRequiredExp_nonneg [of newLevel] by simp
    then have "\<lceil>(totalExp - calculateRequiredExp newLevel) / 100\<rceil> \<le> \<lceil>totalExp / 100\<rceil>"
      by (intro ceiling_mono) simp
    then have le: "nat \<lceil>(totalExp - calculateRequiredExp newLevel) / 100\<rceil> \<le> nat \<lceil>totalExp / 100\<rceil>"
      by (rule nat_mono)
    have m1: "(if newLevel + 1 < 1 then 1 else 0) = (0::nat)" using a by simp
    have m2: "(if newLevel < 1 then 1 else 0) = (1::nat)" using True by simp
    show ?thesis unfolding in_measure prod.case m1 m2 using le by linarith
  next
    case False
    then have r: "100 \<le> calculateRequiredExp newLevel"
      by (simp add: calculateRequiredExp_ge_100)
    with a have t: "100 \<le> totalExp" by simp
    have "(totalExp - calculateRequiredExp newLevel) / 100 \<le> totalExp / 100 - 1"
      using r by simp
    then have "\<lceil>(totalExp - calculateRequiredExp newLevel) / 100\<rceil> \<le> \<lceil>totalExp / 100 - 1\<rceil>"
      by (rule ceiling_mono)
    then have c: "\<lceil>(totalExp - calculateRequiredExp newLevel) / 100\<rceil> \<le> \<lceil>totalExp / 100\<rceil> - 1"
      by simp
    have "1 \<le> totalExp / 100" using t by simp
    then have "0 < \<lceil>totalExp / 100\<rceil>" by (simp add: less_ceiling_iff)
    with c have lt: "nat \<lceil>(totalExp - calculateRequiredExp newLevel) / 100\<rceil> < nat \<lceil>totalExp / 100\<rceil>"
      by linarith
    have m1: "(if newLevel + 1 < 1 then 1 else 0) = (0::nat)" using a by simp
    have m2: "(if newLevel < 1 then 1 else 0) = (0::nat)" using False by simp
    show ?thesis unfolding in_measure prod.case m1 m2 using lt by linarith
  qed
qed

text \<open>The level-down loop, lines 317-321.\<close>

function levelDown :: "real \<Rightarrow> real \<Rightarrow> real \<times> real" where
  "levelDown totalExp newLevel =
     (if totalExp < 0 \<and> newLevel > 1
      then levelDown (totalExp + calculateRequiredExp (newLevel - 1)) (newLevel - 1)
      else (totalExp, newLevel))"
  by pat_completeness auto
termination
proof (relation "measure (\<lambda>(t, l). nat \<lceil>l\<rceil>)")
  show "wf (measure (\<lambda>(t, l). nat \<lceil>l\<rceil>))"
    by simp
next
  fix totalExp newLevel :: real
  assume a: "totalExp < 0 \<and> 1 < newLevel"
  then have "0 < \<lceil>newLevel\<rceil>" by (simp add: less_ceiling_iff)
  then have "nat (\<lceil>newLevel\<rceil> - 1) < nat \<lceil>newLevel\<rceil>" by simp
  then show "((totalExp + calculateRequiredExp (newLevel - 1), newLevel - 1), (totalExp, newLevel))
        \<in> measure (\<lambda>(t, l). nat \<lceil>l\<rceil>)"
    by simp
qed

declare levelUp.simps [simp del]
declare levelDown.simps [simp del]

text \<open>
  The whole block: \<open>totalExp = pet.points + updates.points\<close>, the two loops, and the
  pair \<open>(pet.level, pet.points)\<close> written at lines 324-325. It is the specification's
  \<open>applyPoints(level, points, delta)\<close>.
\<close>

definition applyPoints :: "real \<Rightarrow> real \<Rightarrow> real \<Rightarrow> real \<times> real" where
  "applyPoints level points delta =
     (case levelUp (points + delta) level of
        (totalExp, newLevel) \<Rightarrow>
          (case levelDown totalExp newLevel of
             (totalExp', newLevel') \<Rightarrow> (newLevel', totalExp')))"

section \<open>Documents and the store\<close>

text \<open>
  Ids are the strings the routes carry (\<open>req.params\<close>); a missing parameter is the
  empty string, which \<open>!id\<close> tests. Handlers are modelled by explicit state passing:
  they take the store and return the HTTP status they send with the store after the
  call. Response bodies are left out.
\<close>

type_synonym oid = string

text \<open>
  The values of JavaScript that the pet controller meets: the numbers (a finite
  number is a real here, see above), the three numbers that are not finite, and the
  strings.
\<close>

datatype jsval = JNum real | JNaN | JInfinity | JNegInfinity | JStr string

type_synonym document = "string \<rightharpoonup> jsval"

text \<open>
  The task document, from the schema of \<^verbatim>\<open>src/server/models/Task.js\<close>. The path
  \<open>user\<close> is required by the schema, yet a document under construction may lack it, so
  it is optional here and checked by \<open>validateTask\<close> when the document is saved. Dates are
  milliseconds.
\<close>

record Task =
  task_user :: "oid option"
  task_note :: oid
  task_name :: string
  task_creationDate :: nat
  task_dueDate :: "nat option"
  task_status :: string
  task_category :: string
  task_completedDate :: "nat option"
  task_points :: real

text \<open>
  Modelled from the spec: the schema of Note (\<^verbatim>\<open>models/Note.js\<close> is not among the
  sources). The fields are the list \<open>tasks\<close> that the task controller reads and
  writes, and the owning folder that the data model of the specification names.
\<close>

record Note =
  note_folder :: oid
  note_tasks :: "oid list"

text \<open>
  Modelled from the spec: the schema of Folder (\<^verbatim>\<open>models/Folder.js\<close> is not among the
  sources), with the fields \<open>user\<close>, \<open>name\<close> and \<open>notes\<close> that \<open>createFolder\<close> sets.
\<close>

record Folder =
  folder_user :: oid
  folder_name :: string
  folder_notes :: "oid list"

text \<open>
  Modelled from the spec: the schema of User (\<^verbatim>\<open>models/User.js\<close> is not among the
  sources), with the lists \<open>folders\<close> and \<open>pets\<close> that the controllers push to.
\<close>

record User =
  user_folders :: "oid list"
  user_pets :: "oid list"

text \<open>
  The schema of Pet is not among the sources either; a pet is kept as the object the
  handler sees, a map from property names to values.
\<close>

record store =
  userDocs :: "oid \<rightharpoonup> User"
  folderDocs :: "oid \<rightharpoonup> Folder"
  noteDocs :: "oid \<rightharpoonup> Note"
  taskDocs :: "oid \<rightharpoonup> Task"
  petDocs :: "oid \<rightharpoonup> document"

datatype error = TypeError | NotFound | ParentNotFound

text \<open>\<open>Array.prototype.push\<close> and the update operator \<open>$pull\<close> on a list of ids.\<close>

definition push :: "oid list \<Rightarrow> oid \<Rightarrow> oid list" where
  "push xs x = xs @ [x]"

definition pull :: "oid list \<Rightarrow> oid \<Rightarrow> oid list" where
  "pull xs x = filter (\<lambda>y. y \<noteq> x) xs"

section \<open>The folder controller\<close>

text \<open>
  \<open>createFolder\<close>, lines 20-55 of \<^verbatim>\<open>folderController.js\<close>. \<open>newId\<close> is the \<open>_id\<close> that
  \<open>new Folder\<close> generates: the request does not choose it. \<open>folder.save()\<close> inserts the
  document; the insert of an \<open>_id\<close> that the collection already holds is rejected
  (duplicate key), and the handler answers 500 from its \<open>catch\<close> before the push.
\<close>

definition createFolder :: "oid \<Rightarrow> string option \<Rightarrow> oid \<Rightarrow> store \<Rightarrow> nat \<times> store" where
  "createFolder userId name newId s =
     (if name = None \<or> name = Some [] \<or> userId = [] then (400, s)
      else case userDocs s userId of
        None \<Rightarrow> (404, s)
      | Some usr \<Rightarrow>
          if folderDocs s newId \<noteq> None then (500, s)
          else
            let fld = \<lparr>folder_user = userId, folder_name = the name, folder_notes = []\<rparr>;
                s1 = s\<lparr>folderDocs := (folderDocs s)(newId \<mapsto> fld)\<rparr>;
                usr' = usr\<lparr>user_folders := push (user_folders usr) newId\<rparr>;
                s2 = s1\<lparr>userDocs := (userDocs s1)(userId \<mapsto> usr')\<rparr>
            in (201, s2))"

section \<open>The task model and the task controller\<close>

text \<open>
  The pre-delete hook of \<^verbatim>\<open>Task.js\<close>, lines 49-60. \<open>findByIdAndUpdate\<close> answers the
  note it found, or null; on null, reading \<open>note.tasks\<close> throws a TypeError, which the
  hook passes to \<open>next\<close>, and the deletion is abandoned with the store as it was.
\<close>

definition task_pre_deleteOne :: "oid \<Rightarrow> Task \<Rightarrow> store \<Rightarrow> error option \<times> store" where
  "task_pre_deleteOne taskId self s =
     (case noteDocs s (task_note self) of
        None \<Rightarrow> (Some TypeError, s)
      | Some nt \<Rightarrow>
          (None, s\<lparr>noteDocs := (noteDocs s)(task_note self \<mapsto>
                      nt\<lparr>note_tasks := pull (note_tasks nt) taskId\<rparr>)\<rparr>))"

text \<open>\<open>task.deleteOne()\<close>: the hook, then the removal of the task's record.\<close>

definition task_deleteOne :: "oid \<Rightarrow> Task \<Rightarrow> store \<Rightarrow> error option \<times> store" where
  "task_deleteOne taskId self s =
     (case task_pre_deleteOne taskId self s of
        (Some e, s1) \<Rightarrow> (Some e, s1)
      | (None, s1) \<Rightarrow> (None, s1\<lparr>taskDocs := (taskDocs s1)(taskId := None)\<rparr>))"

text \<open>\<open>deleteTask\<close>, lines 169-191 of the task controller.\<close>

definition deleteTask :: "oid \<Rightarrow> store \<Rightarrow> nat \<times> store" where
  "deleteTask taskId s =
     (if taskId = [] then (400, s)
      else case taskDocs s taskId of
        None \<Rightarrow> (404, s)
      | Some tsk \<Rightarrow>
          (case task_deleteOne taskId tsk s of
             (Some e, s1) \<Rightarrow> (500, s1)
           | (None, s1) \<Rightarrow> (200, s1)))"

text \<open>
  The validators that \<open>save()\<close> runs on a task, from the schema: \<open>user\<close>, \<open>note\<close>, \<open>name\<close>
  and \<open>category\<close> are required, \<open>status\<close> and \<open>category\<close> are enumerations.
\<close>

definition validateTask :: "Task \<Rightarrow> bool" where
  "validateTask t \<longleftrightarrow>
     task_user t \<noteq> None \<and> task_note t \<noteq> [] \<and> task_name t \<noteq> [] \<and>
     task_status t \<in> set [''pending'', ''completed'', ''overdue''] \<and>
     task_category t \<in> set [''easy'', ''medium'', ''hard'']"

text \<open>
  The object \<open>pointsMapping\<close>, lines 5-9. A property read \<open>pointsMapping[key]\<close> answers
  the number of an own key, a function or object for a name that every object
  inherits from \<open>Object.prototype\<close>, and \<open>undefined\<close> otherwise.
\<close>

datatype propval = Undefined | NumberVal real | InheritedVal

definition pointsMapping :: "(string \<times> real) list" where
  "pointsMapping = [(''easy'', 250), (''medium'', 500), (''hard'', 1000)]"

definition objectPrototypeKeys :: "string list" where
  "objectPrototypeKeys =
     [''constructor'', ''__proto__'', ''hasOwnProperty'', ''isPrototypeOf'',
      ''propertyIsEnumerable'', ''toLocaleString'', ''toString'', ''valueOf'',
      ''__defineGetter__'', ''__defineSetter__'', ''__lookupGetter__'', ''__lookupSetter__'']"

definition pointsMapping_get :: "string \<Rightarrow> propval" where
  "pointsMapping_get key =
     (case map_of pointsMapping key of
        Some v \<Rightarrow> NumberVal v
      | None \<Rightarrow> if key \<in> set objectPrototypeKeys then InheritedVal else Undefined)"

text \<open>
  \<open>createTask\<close>, lines 25-67. The document it builds has no \<open>user\<close>; \<open>task.save()\<close>
  validates it against the schema and rejects, and the handler answers 500 from its
  \<open>catch\<close> before it reaches \<open>note.tasks.push\<close>.
\<close>

definition createTask :: "oid \<Rightarrow> string option \<Rightarrow> oid \<Rightarrow> nat \<Rightarrow> store \<Rightarrow> nat \<times> store" where
  "createTask noteId name newId now s =
     (if name = None \<or> name = Some [] then (400, s)
      else case noteDocs s noteId of
        None \<Rightarrow> (404, s)
      | Some nt \<Rightarrow>
          let tsk = \<lparr>task_user = None, task_note = noteId, task_name = the name,
                     task_creationDate = now, task_dueDate = None,
                     task_status = ''pending'', task_category = ''easy'',
                     task_completedDate = None,
                     task_points = (case pointsMapping_get ''easy'' of NumberVal v \<Rightarrow> v | _ \<Rightarrow> 0)\<rparr>
          in if \<not> validateTask tsk then (500, s)
             else
               let s1 = s\<lparr>taskDocs := (taskDocs s)(newId \<mapsto> tsk)\<rparr>;
                   nt' = nt\<lparr>note_tasks := push (note_tasks nt) newId\<rparr>;
                   s2 = s1\<lparr>noteDocs := (noteDocs s1)(noteId \<mapsto> nt')\<rparr>
               in (201, s2))"

text \<open>
  The body of an update request for a task: every path of the schema may be present.
  An absent field and a field set to \<open>undefined\<close> are the same \<open>None\<close>: the update
  that reaches the database carries no \<open>undefined\<close>.
\<close>

record taskData =
  td_user :: "oid option"
  td_note :: "oid option"
  td_name :: "string option"
  td_creationDate :: "nat option"
  td_dueDate :: "nat option"
  td_status :: "string option"
  td_category :: "string option"
  td_completedDate :: "nat option"
  td_points :: "real option"

definition setFields :: "taskData \<Rightarrow> Task \<Rightarrow> Task" where
  "setFields td t =
     \<lparr>task_user = (case td_user td of None \<Rightarrow> task_user t | Some u \<Rightarrow> Some u),
      task_note = (case td_note td of None \<Rightarrow> task_note t | Some n \<Rightarrow> n),
      task_name = (case td_name td of None \<Rightarrow> task_name t | Some n \<Rightarrow> n),
      task_creationDate = (case td_creationDate td of None \<Rightarrow> task_creationDate t | Some d \<Rightarrow> d),
      task_dueDate = (case td_dueDate td of None \<Rightarrow> task_dueDate t | Some d \<Rightarrow> Some d),
      task_status = (case td_status td of None \<Rightarrow> task_status t | Some x \<Rightarrow> x),
      task_category = (case td_category td of None \<Rightarrow> task_category t | Some c \<Rightarrow> c),
      task_completedDate = (case td_completedDate td of None \<Rightarrow> task_completedDate t | Some d \<Rightarrow> Some d),
      task_points = (case td_points td of None \<Rightarrow> task_points t | Some p \<Rightarrow> p)\<rparr>"

text \<open>
  \<open>Task.findByIdAndUpdate(taskId, taskData, {new: true})\<close>: the fields present are
  set; validators do not run on an update.
\<close>

definition findByIdAndUpdate :: "oid \<Rightarrow> taskData \<Rightarrow> store \<Rightarrow> store" where
  "findByIdAndUpdate taskId td s =
     (case taskDocs s taskId of
        None \<Rightarrow> s
      | Some t \<Rightarrow> s\<lparr>taskDocs := (taskDocs s)(taskId \<mapsto> setFields td t)\<rparr>)"

text \<open>
  \<open>updateTask\<close>, lines 121-154. When the task is not found the 404 is sent (line
  136) and, with no \<open>return\<close>, the handler runs on; whatever it does next fails to send
  a second response and changes nothing, so the client sees 404 and the store is as
  it was. A category that is set and differs from the stored one replaces
  \<open>taskData.points\<close> by \<open>pointsMapping[taskData.category]\<close>; a value that is no number
  cannot be cast to the path \<open>points\<close> and the update throws.
\<close>

definition updateTask :: "oid \<Rightarrow> taskData \<Rightarrow> store \<Rightarrow> nat \<times> store" where
  "updateTask taskId td s =
     (if taskId = [] then (400, s)
      else case taskDocs s taskId of
        None \<Rightarrow> (404, s)
      | Some oldTask \<Rightarrow>
          (case td_category td of
             None \<Rightarrow> (200, findByIdAndUpdate taskId td s)
           | Some c \<Rightarrow>
               if c \<noteq> [] \<and> c \<noteq> task_category oldTask
               then (case pointsMapping_get c of
                       NumberVal v \<Rightarrow> (200, findByIdAndUpdate taskId (td\<lparr>td_points := Some v\<rparr>) s)
                     | Undefined \<Rightarrow> (200, findByIdAndUpdate taskId (td\<lparr>td_points := None\<rparr>) s)
                     | InheritedVal \<Rightarrow> (500, s))
               else (200, findByIdAndUpdate taskId td s)))"

section \<open>The cascade on deletion\<close>

text \<open>
  A step of a cascade answers an error, or none, with the store it leaves: the store
  has no transaction over several records, so a cascade that fails part-way leaves
  what it had done.
\<close>

fun forEach :: "(oid \<Rightarrow> store \<Rightarrow> error option \<times> store) \<Rightarrow> oid list \<Rightarrow> store \<Rightarrow> error option \<times> store" where
  "forEach f [] s = (None, s)"
| "forEach f (x # xs) s =
     (case f x s of
        (Some e, s1) \<Rightarrow> (Some e, s1)
      | (None, s1) \<Rightarrow> forEach f xs s1)"

text \<open>
  \<open>deleteSubtree(Task, taskId)\<close>: the lookup of the task and \<open>task.deleteOne()\<close> of
  \<^verbatim>\<open>Task.js\<close>, as \<open>deleteTask\<close> runs them.
\<close>

definition deleteSubtree_Task :: "oid \<Rightarrow> store \<Rightarrow> error option \<times> store" where
  "deleteSubtree_Task taskId s =
     (case taskDocs s taskId of
        None \<Rightarrow> (Some NotFound, s)
      | Some tsk \<Rightarrow> task_deleteOne taskId tsk s)"

text \<open>
  Modelled from the spec: \<open>detachChild(folder, noteId)\<close>, the pull of a note's id out of
  its folder's list (section 4.3; the hook of \<^verbatim>\<open>models/Note.js\<close> that would do it is
  not among the sources). It fails with \<open>ParentNotFound\<close> when the folder does not
  resolve, and removing an absent id is no error.
\<close>

definition detachChild_Folder :: "oid \<Rightarrow> oid \<Rightarrow> store \<Rightarrow> error option \<times> store" where
  "detachChild_Folder folderId noteId s =
     (case folderDocs s folderId of
        None \<Rightarrow> (Some ParentNotFound, s)
      | Some fld \<Rightarrow>
          (None, s\<lparr>folderDocs := (folderDocs s)(folderId \<mapsto>
                      fld\<lparr>folder_notes := pull (folder_notes fld) noteId\<rparr>)\<rparr>))"

text \<open>
  Modelled from the spec: \<open>detachChild(user, folderId)\<close>, the pull of a folder's id out
  of its user's list (section 4.3; the hook of \<^verbatim>\<open>models/Folder.js\<close> is not among the
  sources).
\<close>

definition detachChild_User :: "oid \<Rightarrow> oid \<Rightarrow> store \<Rightarrow> error option \<times> store" where
  "detachChild_User userId folderId s =
     (case userDocs s userId of
        None \<Rightarrow> (Some ParentNotFound, s)
      | Some usr \<Rightarrow>
          (None, s\<lparr>userDocs := (userDocs s)(userId \<mapsto>
                      usr\<lparr>user_folders := pull (user_folders usr) folderId\<rparr>)\<rparr>))"

text \<open>
  Modelled from the spec: \<open>deleteSubtree(Note, noteId)\<close> (section 4.4; the pre-delete
  hook of \<^verbatim>\<open>models/Note.js\<close> is not among the sources): for each task id in the
  note's list \<open>deleteSubtree(Task, taskId)\<close>, then the note's record is deleted, then
  the note is detached from its owning folder. A failure in a child's cascade aborts
  the call.
\<close>

definition deleteSubtree_Note :: "oid \<Rightarrow> store \<Rightarrow> error option \<times> store" where
  "deleteSubtree_Note noteId s =
     (case noteDocs s noteId of
        None \<Rightarrow> (Some NotFound, s)
      | Some nt \<Rightarrow>
          (case forEach deleteSubtree_Task (note_tasks nt) s of
             (Some e, s1) \<Rightarrow> (Some e, s1)
           | (None, s1) \<Rightarrow>
               detachChild_Folder (note_folder nt) noteId
                 (s1\<lparr>noteDocs := (noteDocs s1)(noteId := None)\<rparr>)))"

text \<open>
  Modelled from the spec: \<open>deleteSubtree(Folder, folderId)\<close> (section 4.4; the
  pre-delete hook of \<^verbatim>\<open>models/Folder.js\<close>, which \<open>folder.deleteOne()\<close> triggers, is not
  among the sources): for each note id in the folder's list
  \<open>deleteSubtree(Note, noteId)\<close>, then the folder's record is deleted, then the folder
  is detached from its owning user.
\<close>

definition deleteSubtree_Folder :: "oid \<Rightarrow> store \<Rightarrow> error option \<times> store" where
  "deleteSubtree_Folder folderId s =
     (case folderDocs s folderId of
        None \<Rightarrow> (Some NotFound, s)
      | Some fld \<Rightarrow>
          (case forEach deleteSubtree_Note (folder_notes fld) s of
             (Some e, s1) \<Rightarrow> (Some e, s1)
           | (None, s1) \<Rightarrow>
               detachChild_User (folder_user fld) folderId
                 (s1\<lparr>folderDocs := (folderDocs s1)(folderId := None)\<rparr>)))"

text \<open>
  \<open>deleteFolder\<close>, lines 148-170 of \<^verbatim>\<open>folderController.js\<close>; \<open>folder.deleteOne()\<close> is
  the cascade above.
\<close>

definition deleteFolder :: "oid \<Rightarrow> store \<Rightarrow> nat \<times> store" where
  "deleteFolder folderId s =
     (if folderId = [] then (400, s)
      else case folderDocs s folderId of
        None \<Rightarrow> (404, s)
      | Some fld \<Rightarrow>
          (case deleteSubtree_Folder folderId s of
             (Some e, s1) \<Rightarrow> (500, s1)
           | (None, s1) \<Rightarrow> (200, s1)))"

section \<open>The pet controller\<close>

text \<open>
  \<open>updatePet\<close>, lines 282-343, runs on two things that the sources do not hold; the
  model takes them as parameters.

  \<^item> \<open>coerced\<close>: what lines 305-321 leave in \<open>totalExp\<close> and \<open>newLevel\<close>, from
    \<open>pet.points\<close>, \<open>pet.level\<close> and \<open>updates.points\<close>, when these are not three numbers
    below \<open>2^53\<close>: the coercions of JavaScript between strings and numbers, and the
    doubles from \<open>2^53\<close> on, where consecutive integers are no longer separated and
    \<open>totalExp -= maxExp\<close> may leave the total as it was. \<open>None\<close> is a loop that does
    not exit; a value \<open>None\<close> in the pair is \<open>undefined\<close>.
  \<^item> \<open>accepts\<close>: whether \<open>pet.save()\<close>, the method of the model built from
    \<^verbatim>\<open>models/Pet.js\<close>, accepts the object it is called on (validation and casts of
    the schema, an \<open>_id\<close> that was changed).
\<close>

record runtime =
  coerced :: "jsval option \<Rightarrow> jsval option \<Rightarrow> jsval \<Rightarrow> (jsval option \<times> jsval option) option"
  accepts :: "document \<Rightarrow> bool"

text \<open>The operands of the leveling block when they are three numbers below \<open>2^53\<close>.\<close>

definition numericOperands :: "document \<Rightarrow> jsval \<Rightarrow> (real \<times> real \<times> real) option" where
  "numericOperands pet pts =
     (case (pet ''points'', pet ''level'', pts) of
        (Some (JNum p), Some (JNum l), JNum d) \<Rightarrow>
          if \<bar>p + d\<bar> < 2 ^ 53 \<and> \<bar>l\<bar> < 2 ^ 53 then Some (l, p, d) else None
      | _ \<Rightarrow> None)"

text \<open>
  The leveling block, lines 299-326: the arithmetic, then \<open>pet.points = totalExp\<close> and
  \<open>pet.level = newLevel\<close>. \<open>None\<close> is a block that does not return.
\<close>

definition levelingBlock :: "runtime \<Rightarrow> document \<Rightarrow> jsval \<Rightarrow> document option" where
  "levelingBlock rt pet pts =
     (case numericOperands pet pts of
        Some (l, p, d) \<Rightarrow>
          (case applyPoints l p d of
             (newLevel, totalExp) \<Rightarrow>
               Some (pet(''points'' \<mapsto> JNum totalExp, ''level'' \<mapsto> JNum newLevel)))
      | None \<Rightarrow>
          (case coerced rt (pet ''points'') (pet ''level'') pts of
             None \<Rightarrow> None
           | Some (totalExp, newLevel) \<Rightarrow>
               Some (pet(''points'' := totalExp, ''level'' := newLevel))))"

text \<open>
  The assignment \<open>pet[key] = updates[key]\<close> of line 331; the values of a body are
  numbers and strings. The name \<open>__proto__\<close> is the accessor that every object inherits
  from \<open>Object.prototype\<close>; its setter ignores a value that is not an object, so for
  this key nothing is written.
\<close>

definition assign :: "document \<Rightarrow> string \<Rightarrow> jsval \<Rightarrow> document" where
  "assign pet key v = (if key = ''__proto__'' then pet else pet(key \<mapsto> v))"

text \<open>The loop over the keys of the body, lines 329-333, in the order it visits them.\<close>

fun applyOtherUpdates :: "(string \<times> jsval) list \<Rightarrow> document \<Rightarrow> document" where
  "applyOtherUpdates [] pet = pet"
| "applyOtherUpdates ((key, v) # rest) pet =
     applyOtherUpdates rest (if key \<noteq> ''points'' then assign pet key v else pet)"

text \<open>
  The handler. The result \<open>None\<close> is a handler that does not answer. \<open>pet.save()\<close> at
  line 336 is called on the object that the loop has written to: when the body has a
  key \<open>save\<close>, \<open>pet.save\<close> is the body's value, the call throws a TypeError, and the
  handler answers 500 from its \<open>catch\<close> with nothing stored. What an accepted \<open>save\<close>
  writes is taken to be the object it is called on, as the specification has it (any
  field of the body is applied); a schema in \<^verbatim>\<open>models/Pet.js\<close> may keep fewer keys.
\<close>

definition updatePet ::
  "runtime \<Rightarrow> oid \<Rightarrow> (string \<times> jsval) list \<Rightarrow> store \<Rightarrow> (nat \<times> store) option" where
  "updatePet rt petId updates s =
     (if petId = [] then Some (400, s)
      else case petDocs s petId of
        None \<Rightarrow> Some (404, s)
      | Some pet \<Rightarrow>
          (case (case map_of updates ''points'' of
                   None \<Rightarrow> Some pet
                 | Some pts \<Rightarrow> levelingBlock rt pet pts) of
             None \<Rightarrow> None
           | Some pet1 \<Rightarrow>
               let pet2 = applyOtherUpdates updates pet1
               in if map_of updates ''save'' \<noteq> None then Some (500, s)
                  else if \<not> accepts rt pet2 then Some (500, s)
                  else Some (200, s\<lparr>petDocs := (petDocs s)(petId \<mapsto> pet2)\<rparr>)))"

section \<open>Notions used in the statements\<close>

text \<open>
  What the block establishes for a level that is a positive integer: the points are
  below the requirement of the level, and negative at level 1 only.
\<close>

definition normalised :: "nat \<Rightarrow> real \<Rightarrow> bool" where
  "normalised n p \<longleftrightarrow> 1 \<le> n \<and> p < calculateRequiredExp (real n) \<and> (0 \<le> p \<or> n = 1)"

text \<open>
  The part of the data model's first invariant that concerns tasks: every id in a
  note's list is the id of a stored task whose \<open>note\<close> is that note.
\<close>

definition notes_consistent :: "store \<Rightarrow> bool" where
  "notes_consistent s \<longleftrightarrow>
     (\<forall>nid nt. noteDocs s nid = Some nt \<longrightarrow>
        (\<forall>tid \<in> set (note_tasks nt). \<exists>tsk. taskDocs s tid = Some tsk \<and> task_note tsk = nid))"

text \<open>
  What a cascade may do to the tasks and notes of a store: records are removed, none
  appears, and an id leaves a note's list only when its task is removed.
\<close>

definition shrinks :: "store \<Rightarrow> store \<Rightarrow> bool" where
  "shrinks s s' \<longleftrightarrow>
     (\<forall>tid. taskDocs s tid = None \<longrightarrow> taskDocs s' tid = None) \<and>
     (\<forall>nid. noteDocs s nid = None \<longrightarrow> noteDocs s' nid = None) \<and>
     (\<forall>nid n n'. noteDocs s nid = Some n \<longrightarrow> noteDocs s' nid = Some n' \<longrightarrow>
        (\<forall>tid \<in> set (note_tasks n). tid \<in> set (note_tasks n') \<or> taskDocs s' tid = None))"

text \<open>
  A note and a folder on which the cascade runs through: the lists have no id twice,
  the parent is stored, and every child in the list is stored and names this parent.
\<close>

definition note_wellformed :: "store \<Rightarrow> oid \<Rightarrow> bool" where
  "note_wellformed s nid \<longleftrightarrow>
     (\<exists>nt. noteDocs s nid = Some nt \<and> distinct (note_tasks nt) \<and>
        folderDocs s (note_folder nt) \<noteq> None \<and>
        (\<forall>tid \<in> set (note_tasks nt). \<exists>tsk. taskDocs s tid = Some tsk \<and> task_note tsk = nid))"

definition folder_wellformed :: "store \<Rightarrow> oid \<Rightarrow> bool" where
  "folder_wellformed s fid \<longleftrightarrow>
     (\<exists>fld. folderDocs s fid = Some fld \<and> distinct (folder_notes fld) \<and>
        userDocs s (folder_user fld) \<noteq> None \<and>
        (\<forall>nid \<in> set (folder_notes fld). note_wellformed s nid))"

text \<open>
  A small store for the concrete cases: one user with a pet and a folder, two notes
  in the folder, three tasks.
\<close>

definition example_task :: "oid \<Rightarrow> Task" where
  "example_task noteId =
     \<lparr>task_user = Some ''u1'', task_note = noteId, task_name = ''water the plants'',
      task_creationDate = 0, task_dueDate = None, task_status = ''pending'',
      task_category = ''easy'', task_completedDate = None, task_points = 250\<rparr>"

definition example_pet :: document where
  "example_pet = [''user'' \<mapsto> JStr ''u1'', ''name'' \<mapsto> JStr ''Momo'', ''type'' \<mapsto> JStr ''cat'',
                  ''level'' \<mapsto> JNum 1, ''points'' \<mapsto> JNum 80]"

definition example_store :: store where
  "example_store =
     \<lparr>userDocs = [''u1'' \<mapsto> \<lparr>user_folders = [''f1''], user_pets = [''p1'']\<rparr>],
      folderDocs = [''f1'' \<mapsto> \<lparr>folder_user = ''u1'', folder_name = ''home'', folder_notes = [''n1'', ''n2'']\<rparr>],
      noteDocs = [''n1'' \<mapsto> \<lparr>note_folder = ''f1'', note_tasks = [''t1'', ''t2'']\<rparr>,
                  ''n2'' \<mapsto> \<lparr>note_folder = ''f1'', note_tasks = [''t3'']\<rparr>],
      taskDocs = [''t1'' \<mapsto> example_task ''n1'', ''t2'' \<mapsto> example_task ''n1'',
                  ''t3'' \<mapsto> example_task ''n2''],
      petDocs = [''p1'' \<mapsto> example_pet]\<rparr>"

text \<open>
  A runtime for the concrete cases: \<open>save\<close> accepts every object, and the block on
  operands that are not numbers below \<open>2^53\<close> does not return.
\<close>

definition example_runtime :: runtime where
  "example_runtime = \<lparr>coerced = (\<lambda>points level delta. None), accepts = (\<lambda>pet. True)\<rparr>"


text \<open>The body of an update request with no field.\<close>

definition td_empty :: taskData where
  "td_empty = \<lparr>td_user = None, td_note = None, td_name = None, td_creationDate = None,
     td_dueDate = None, td_status = None, td_category = None, td_completedDate = None,
     td_points = None\<rparr>"

section \<open>Properties of the leveling block\<close>

lemma levelUp_below:
  "totalExp < calculateRequiredExp newLevel \<Longrightarrow> levelUp totalExp newLevel = (totalExp, newLevel)"
  by (simp add: levelUp.simps)

lemma levelUp_step:
  "0 \<le> newLevel \<Longrightarrow> calculateRequiredExp newLevel \<le> totalExp \<Longrightarrow>
   levelUp totalExp newLevel = levelUp (totalExp - calculateRequiredExp newLevel) (newLevel + 1)"
  by (subst levelUp.simps) simp

lemma levelDown_nonneg:
  "0 \<le> totalExp \<Longrightarrow> levelDown totalExp newLevel = (totalExp, newLevel)"
  by (simp add: levelDown.simps)

lemma levelDown_floor: "levelDown totalExp 1 = (totalExp, 1)"
  by (simp add: levelDown.simps)

lemma calculateRequiredExp_2_gt: "100 \<le> calculateRequiredExp 2"
  by (rule calculateRequiredExp_ge_100) simp

lemma levelUp_nat:
  "levelUp t l = (t', l') \<Longrightarrow> l = real n \<Longrightarrow>
     \<exists>n'. l' = real n' \<and> n \<le> n' \<and> t' < calculateRequiredExp l'
        \<and> (0 \<le> t \<longrightarrow> 0 \<le> t') \<and> (t < 0 \<longrightarrow> t' = t \<and> n' = n)"
proof (induction t l arbitrary: n rule: levelUp.induct)
  case (1 totalExp newLevel)
  show ?case
  proof (cases "0 \<le> newLevel \<and> calculateRequiredExp newLevel \<le> totalExp")
    case True
    then have rec: "levelUp (totalExp - calculateRequiredExp newLevel) (newLevel + 1) = (t', l')"
      using "1.prems"(1) by (subst (asm) levelUp.simps) simp
    have "newLevel + 1 = real (Suc n)" using "1.prems"(2) by simp
    from "1.IH" [OF True rec this] obtain n' where
      n': "l' = real n'" "Suc n \<le> n'" "t' < calculateRequiredExp l'"
          "0 \<le> totalExp - calculateRequiredExp newLevel \<longrightarrow> 0 \<le> t'"
      by blast
    have "0 \<le> totalExp" using True calculateRequiredExp_nonneg [of newLevel] by linarith
    moreover have "0 \<le> t'" using n'(4) True by simp
    ultimately show ?thesis
      using n' by (intro exI [of _ n']) simp
  next
    case False
    then have "t' = totalExp" "l' = newLevel"
      using "1.prems"(1) by (subst (asm) levelUp.simps; simp)+
    moreover have "totalExp < calculateRequiredExp newLevel"
      using False "1.prems"(2) by auto
    ultimately show ?thesis
      using "1.prems"(2) by (intro exI [of _ n]) simp
  qed
qed

lemma levelDown_nat:
  "levelDown t l = (t', l') \<Longrightarrow> l = real n \<Longrightarrow> 1 \<le> n \<Longrightarrow> t < calculateRequiredExp l \<Longrightarrow>
     \<exists>n'. l' = real n' \<and> 1 \<le> n' \<and> n' \<le> n
        \<and> t' < calculateRequiredExp l' \<and> (0 \<le> t' \<or> n' = 1) \<and> (0 \<le> t \<longrightarrow> t' = t \<and> n' = n)"
proof (induction t l arbitrary: n rule: levelDown.induct)
  case (1 totalExp newLevel)
  show ?case
  proof (cases "totalExp < 0 \<and> newLevel > 1")
    case True
    then have rec: "levelDown (totalExp + calculateRequiredExp (newLevel - 1)) (newLevel - 1) = (t', l')"
      using "1.prems"(1) by (subst (asm) levelDown.simps) simp
    from True "1.prems"(2) obtain m where m: "n = Suc m" "1 \<le> m"
      by (cases n) auto
    have lv: "newLevel - 1 = real m" using "1.prems"(2) m by simp
    have lt: "totalExp + calculateRequiredExp (newLevel - 1) < calculateRequiredExp (newLevel - 1)"
      using True by simp
    from "1.IH" [OF True rec lv m(2) lt] obtain n' where
      n': "l' = real n'" "1 \<le> n'" "n' \<le> m"
          "t' < calculateRequiredExp l'" "0 \<le> t' \<or> n' = 1"
      by blast
    show ?thesis
      using n' m True by (intro exI [of _ n']) simp
  next
    case False
    then have eq: "t' = totalExp" "l' = newLevel"
      using "1.prems"(1) by (subst (asm) levelDown.simps; simp)+
    have "0 \<le> totalExp \<or> n = 1"
      using False "1.prems"(2,3) by auto
    then show ?thesis
      using eq "1.prems" by (intro exI [of _ n]) simp
  qed
qed

lemma applyPoints_nat:
  assumes "1 \<le> n" and "applyPoints (real n) p d = (l', p')"
  shows "\<exists>n'. l' = real n' \<and> normalised n' p' \<and> (p' < 0 \<longrightarrow> p + d < 0)"
proof -
  obtain t1 l1 where up: "levelUp (p + d) (real n) = (t1, l1)"
    by (cases "levelUp (p + d) (real n)")
  with assms(2) have down: "levelDown t1 l1 = (p', l')"
    by (simp add: applyPoints_def split: prod.splits)
  from levelUp_nat [OF up refl] obtain n1 where
    n1: "l1 = real n1" "n \<le> n1" "t1 < calculateRequiredExp l1" "0 \<le> p + d \<longrightarrow> 0 \<le> t1"
    by blast
  have "1 \<le> n1" using assms(1) n1(2) by simp
  from levelDown_nat [OF down n1(1) this n1(3)] obtain n' where
    n': "l' = real n'" "1 \<le> n'" "p' < calculateRequiredExp l'" "0 \<le> p' \<or> n' = 1"
        "0 \<le> t1 \<longrightarrow> p' = t1 \<and> n' = n1"
    by blast
  show ?thesis
    using n' n1 by (intro exI [of _ n']) (auto simp: normalised_def)
qed

text \<open>
  The curve without \<open>powr\<close>, and the first concrete scenario of the specification:
  from level 1 with 80 points, 250 points lead to level 2 with 230 points.
\<close>

lemma calculateRequiredExp_sqrt:
  assumes "0 \<le> level"
  shows "calculateRequiredExp level = 100 * (level * sqrt level)"
proof -
  have "level powr (1 + 1 / 2) = level powr 1 * level powr (1 / 2)"
    by (rule powr_add)
  also have "\<dots> = level * sqrt level"
    using assms by (simp add: powr_half_sqrt)
  finally show ?thesis
    by (simp add: calculateRequiredExp_def BASE_EXP_def EXPONENT_def)
qed

lemma calculateRequiredExp_2_bounds: "282 < calculateRequiredExp 2 \<and> calculateRequiredExp 2 < 283"
proof -
  have "(141 / 100)\<^sup>2 < (2::real)" by (simp add: power2_eq_square)
  then have lo: "141 / 100 < sqrt 2" by (rule real_less_rsqrt)
  have "(2::real) < (1415 / 1000)\<^sup>2" by (simp add: power2_eq_square)
  then have hi: "sqrt 2 < 1415 / 1000" by (intro real_less_lsqrt) simp_all
  show ?thesis
    using lo hi by (simp add: calculateRequiredExp_sqrt)
qed

lemma applyPoints_spec_scenario: "applyPoints 1 80 250 = (2, 230)"
proof -
  have "levelUp 330 1 = levelUp 230 2"
    using levelUp_step [of 1 330] by (simp add: calculateRequiredExp_1)
  also have "\<dots> = (230, 2)"
    using calculateRequiredExp_2_bounds by (intro levelUp_below) simp
  finally show ?thesis
    by (simp add: applyPoints_def levelDown_nonneg)
qed

lemma applyPoints_level_one:
  "p + d < 100 \<Longrightarrow> applyPoints 1 p d = (1, p + d)"
  by (simp add: applyPoints_def levelUp_below levelDown_floor calculateRequiredExp_1)

text \<open>
  Claim C1 (level floor), as the code has it: from level 1 and points \<open>p \<ge> 0\<close>, a delta
  of at most \<open>-(p + 1)\<close> leaves the level at 1 and the points at \<open>p + delta\<close>, which is
  negative. The second loop stops at level 1 and nothing sets the points to 0.
\<close>

theorem C1_level_one_keeps_deficit:
  "0 \<le> p \<Longrightarrow> delta \<le> - (p + 1) \<Longrightarrow>
   applyPoints 1 p delta = (1, p + delta) \<and> p + delta < 0"
  by (simp add: applyPoints_def levelUp_below levelDown_floor calculateRequiredExp_1)

theorem C1_level_one_keeps_deficit_witness:
  "(0::real) \<le> 20 \<and> (- 30::real) \<le> - (20 + 1) \<and> applyPoints 1 20 (- 30) = (1, - 10)"
  using C1_level_one_keeps_deficit [of 20 "- 30"] by simp

text \<open>
  Claim C1 as stated fails: with level 1, points 0 and delta -50 the block answers
  points -50, not 0.
\<close>

theorem C1_level_floor_counterexample:
  "(0::real) \<le> 0 \<and> (- 50::real) \<le> - (0 + 1) \<and>
   applyPoints 1 0 (- 50) = (1, - 50) \<and> applyPoints 1 0 (- 50) \<noteq> (1, 0)"
  by (simp add: applyPoints_def levelUp_below levelDown_floor calculateRequiredExp_1)

text \<open>
  Claim C7 (zero delta), as the code has it: a delta of 0 answers the state it was
  given when the points are below the requirement of the level.
\<close>

theorem C7_zero_delta:
  "1 \<le> l \<Longrightarrow> 0 \<le> p \<Longrightarrow> p < calculateRequiredExp l \<Longrightarrow> applyPoints l p 0 = (l, p)"
  by (simp add: applyPoints_def levelUp_below levelDown_nonneg)

theorem C7_zero_delta_witness:
  "(1::real) \<le> 1 \<and> (0::real) \<le> 50 \<and> 50 < calculateRequiredExp 1 \<and> applyPoints 1 50 0 = (1, 50)"
  using C7_zero_delta [of 1 50] by (simp add: calculateRequiredExp_1)

text \<open>
  Claim C7 as stated fails: level 1 with points 100 is a state with \<open>l \<ge> 1\<close> and
  \<open>p \<ge> 0\<close>, and a delta of 0 moves it to level 2 with points 0.
\<close>

theorem C7_zero_delta_counterexample:
  "(1::real) \<le> 1 \<and> (0::real) \<le> 100 \<and> applyPoints 1 100 0 = (2, 0) \<and> applyPoints 1 100 0 \<noteq> (1, 100)"
proof -
  have "levelUp 100 1 = levelUp 0 2"
    using levelUp_step [of 1 100] by (simp add: calculateRequiredExp_1)
  also have "\<dots> = (0, 2)"
    using calculateRequiredExp_2_gt by (intro levelUp_below) simp
  finally show ?thesis
    by (simp add: applyPoints_def levelDown_nonneg)
qed

section \<open>Properties of the controllers\<close>

text \<open>
  \<open>createTask\<close> never answers 201 and never changes the store: the document it saves
  lacks the required \<open>user\<close>, so the push at lines 58-60 is not reached.
\<close>

lemma createTask_never_attaches:
  "fst (createTask noteId name newId now s) \<noteq> 201 \<and> snd (createTask noteId name newId now s) = s"
  by (simp add: createTask_def validateTask_def Let_def split: option.splits)

text \<open>
  When the \<open>_id\<close> of the new folder is already stored, the insert is rejected and
  nothing is attached.
\<close>

lemma createFolder_duplicate_key:
  "userId \<noteq> [] \<Longrightarrow> name = Some nm \<Longrightarrow> nm \<noteq> [] \<Longrightarrow> userDocs s userId = Some usr \<Longrightarrow>
   folderDocs s newId \<noteq> None \<Longrightarrow> createFolder userId name newId s = (500, s)"
  by (auto simp: createFolder_def)




text \<open>
  Claim C6 (category change re-derives points): for a stored task, an update whose
  body carries a category among \<open>easy\<close>, \<open>medium\<close>, \<open>hard\<close> that differs from the
  task's category answers 200 and leaves the task with that category and with the
  points 250, 500 or 1000 that \<open>pointsMapping\<close> gives it, whatever \<open>points\<close> the body
  carries or lacks.
\<close>

theorem C6_category_change:
  assumes "taskId \<noteq> []" "taskDocs s taskId = Some t" "td_category td = Some c"
    and "c \<noteq> task_category t" "c \<in> set [''easy'', ''medium'', ''hard'']"
  shows "\<exists>s' t'. updateTask taskId td s = (200, s') \<and> taskDocs s' taskId = Some t' \<and>
           task_category t' = c \<and>
           task_points t' = (if c = ''easy'' then 250 else if c = ''medium'' then 500 else 1000)"
  using assms
  by (auto simp: updateTask_def pointsMapping_get_def pointsMapping_def findByIdAndUpdate_def
      setFields_def)


theorem C6_category_change_witness:
  "(\<exists>s' t'. updateTask ''t1'' (td_empty\<lparr>td_category := Some ''hard''\<rparr>) example_store = (200, s') \<and>
      taskDocs s' ''t1'' = Some t' \<and> task_category t' = ''hard'' \<and> task_points t' = 1000)"
  using C6_category_change [of "''t1''" example_store "example_task ''n1''"
      "td_empty\<lparr>td_category := Some ''hard''\<rparr>" "''hard''"]
  by (auto simp: example_store_def example_task_def td_empty_def)


text \<open>
  Claim C9 (InvalidCategory on an unmapped key) against the code: the category
  \<open>banana\<close> is no key of \<open>pointsMapping\<close>; \<open>updateTask\<close> answers 200 and stores it, where
  the claim has the request fail.
\<close>

theorem C9_unmapped_category_accepted:
  "pointsMapping_get ''banana'' = Undefined \<and>
   fst (updateTask ''t1'' (td_empty\<lparr>td_category := Some ''banana''\<rparr>) example_store) = 200 \<and>
   map_option task_category
     (taskDocs (snd (updateTask ''t1'' (td_empty\<lparr>td_category := Some ''banana''\<rparr>) example_store)) ''t1'')
     = Some ''banana''"
  by (simp add: updateTask_def pointsMapping_get_def pointsMapping_def objectPrototypeKeys_def
      findByIdAndUpdate_def setFields_def example_store_def example_task_def td_empty_def)

text \<open>The loop over the keys of the body, and the leveling block inside the handler.\<close>

lemma applyOtherUpdates_frame:
  "k \<notin> fst ` set updates \<Longrightarrow> applyOtherUpdates updates pet k = pet k"
  by (induction updates pet rule: applyOtherUpdates.induct) (auto simp: assign_def)

lemma applyOtherUpdates_points:
  "applyOtherUpdates updates pet ''points'' = pet ''points''"
  by (induction updates pet rule: applyOtherUpdates.induct) (auto simp: assign_def)

lemma applyOtherUpdates_copied:
  "distinct (map fst updates) \<Longrightarrow> (k, v) \<in> set updates \<Longrightarrow> k \<noteq> ''points'' \<Longrightarrow>
   k \<noteq> ''__proto__'' \<Longrightarrow> applyOtherUpdates updates pet k = Some v"
proof (induction updates pet rule: applyOtherUpdates.induct)
  case (1 pet)
  then show ?case by simp
next
  case (2 key w rest pet)
  show ?case
  proof (cases "(k, v) \<in> set rest")
    case True
    with 2 show ?thesis by simp
  next
    case False
    with "2.prems" have kv: "key = k" "w = v" by auto
    with "2.prems"(1) have "k \<notin> fst ` set rest" by simp
    with kv "2.prems"(3,4) show ?thesis
      by (simp add: applyOtherUpdates_frame assign_def)
  qed
qed

lemma levelingBlock_frame:
  "levelingBlock rt pet pts = Some pet1 \<Longrightarrow> k \<noteq> ''points'' \<Longrightarrow> k \<noteq> ''level'' \<Longrightarrow> pet1 k = pet k"
  by (auto simp: levelingBlock_def split: option.splits prod.splits)

lemma numericOperands_Some:
  "pet ''points'' = Some (JNum p) \<Longrightarrow> pet ''level'' = Some (JNum l) \<Longrightarrow>
   \<bar>p + d\<bar> < 2 ^ 53 \<Longrightarrow> \<bar>l\<bar> < 2 ^ 53 \<Longrightarrow> numericOperands pet (JNum d) = Some (l, p, d)"
  by (simp add: numericOperands_def)

lemma levelingBlock_numbers:
  assumes "numericOperands pet pts = Some (l, p, d)"
  shows "levelingBlock rt pet pts =
           Some (pet(''points'' \<mapsto> JNum (snd (applyPoints l p d)),
                     ''level'' \<mapsto> JNum (fst (applyPoints l p d))))"
  using assms by (simp add: levelingBlock_def split: prod.splits)

lemma updatePet_200:
  assumes "updatePet rt petId updates s = Some (200, s')" "petDocs s petId = Some pet"
  shows "\<exists>pet1. (case map_of updates ''points'' of None \<Rightarrow> Some pet
                   | Some pts \<Rightarrow> levelingBlock rt pet pts) = Some pet1 \<and>
           map_of updates ''save'' = None \<and>
           s' = s\<lparr>petDocs := (petDocs s)(petId \<mapsto> applyOtherUpdates updates pet1)\<rparr>"
  using assms
  by (auto simp: updatePet_def Let_def split: if_splits option.splits)

lemma updatePet_save_shadowed:
  "updatePet rt petId updates s = Some (st, s') \<Longrightarrow> map_of updates ''save'' \<noteq> None \<Longrightarrow>
   st \<noteq> 200 \<and> s' = s"
  by (auto simp: updatePet_def Let_def split: if_splits option.splits)

text \<open>
  Claim C2 (pet state invariant), as the code has it. For a stored pet whose points
  and level are numbers, the level a positive integer, and a body whose \<open>points\<close> is a
  number (total and level below \<open>2^53\<close>) and which has no key \<open>level\<close>: when the handler
  answers 200, the stored pet has a level that is a positive integer and points that
  are at most the requirement of that level, below it when \<open>points + delta\<close> is not
  negative; the points are not negative unless the level is 1 and \<open>points + delta\<close> was
  negative.
\<close>

theorem C2_stored_pet_invariant:
  assumes "petDocs s petId = Some pet"
    and "pet ''points'' = Some (JNum p)" "pet ''level'' = Some (JNum (real n))" "1 \<le> n"
    and "\<bar>p + d\<bar> < 2 ^ 53" "real n < 2 ^ 53"
    and "map_of updates ''points'' = Some (JNum d)" "''level'' \<notin> fst ` set updates"
    and "updatePet rt petId updates s = Some (200, s')"
  shows "\<exists>pet' l' p'. petDocs s' petId = Some pet' \<and>
           pet' ''level'' = Some (JNum l') \<and> pet' ''points'' = Some (JNum p') \<and>
           l' \<in> \<nat> \<and> 1 \<le> l' \<and> p' \<le> calculateRequiredExp l' \<and>
           (0 \<le> p + d \<longrightarrow> p' < calculateRequiredExp l') \<and>
           (0 \<le> p' \<or> (l' = 1 \<and> p + d < 0))"
proof -
  obtain l' p' where ap: "applyPoints (real n) p d = (l', p')"
    by (cases "applyPoints (real n) p d")
  let ?pet1 = "pet(''points'' \<mapsto> JNum p', ''level'' \<mapsto> JNum l')"
  have ops: "numericOperands pet (JNum d) = Some (real n, p, d)"
    using assms(2,3,5,6) by (intro numericOperands_Some) simp_all
  have blk: "levelingBlock rt pet (JNum d) = Some ?pet1"
    using levelingBlock_numbers [OF ops] ap by simp
  from updatePet_200 [OF assms(9,1)] assms(7) blk
  have s': "s' = s\<lparr>petDocs := (petDocs s)(petId \<mapsto> applyOtherUpdates updates ?pet1)\<rparr>"
    by auto
  let ?pet' = "applyOtherUpdates updates ?pet1"
  have lvl: "?pet' ''level'' = Some (JNum l')"
    using assms(8) by (simp add: applyOtherUpdates_frame)
  have pts: "?pet' ''points'' = Some (JNum p')"
    by (simp add: applyOtherUpdates_points)
  from applyPoints_nat [OF assms(4) ap] obtain n' where
    n': "l' = real n'" "normalised n' p'" "p' < 0 \<longrightarrow> p + d < 0"
    by blast
  then have "l' \<in> \<nat> \<and> 1 \<le> l' \<and> p' \<le> calculateRequiredExp l' \<and>
      (0 \<le> p + d \<longrightarrow> p' < calculateRequiredExp l') \<and> (0 \<le> p' \<or> (l' = 1 \<and> p + d < 0))"
    by (auto simp: normalised_def)
  with lvl pts show ?thesis
    by (intro exI [of _ ?pet'] exI [of _ l'] exI [of _ p']) (simp add: s')
qed

lemma example_numericOperands:
  "\<bar>80 + d\<bar> < 2 ^ 53 \<Longrightarrow> numericOperands example_pet (JNum d) = Some (1, 80, d)"
  by (simp add: numericOperands_def example_pet_def)

lemma updatePet_example_250:
  "updatePet example_runtime ''p1'' [(''points'', JNum 250), (''name'', JStr ''Rex'')] example_store =
     Some (200, example_store\<lparr>petDocs := [''p1'' \<mapsto>
       example_pet(''points'' \<mapsto> JNum 230, ''level'' \<mapsto> JNum 2, ''name'' \<mapsto> JStr ''Rex'')]\<rparr>)"
  by (simp add: updatePet_def levelingBlock_def example_numericOperands applyPoints_spec_scenario
      assign_def example_runtime_def example_store_def)

theorem C2_stored_pet_invariant_witness:
  "petDocs example_store ''p1'' = Some example_pet \<and>
   example_pet ''points'' = Some (JNum 80) \<and> example_pet ''level'' = Some (JNum (real 1)) \<and>
   (1::nat) \<le> 1 \<and> \<bar>80 + 250\<bar> < (2::real) ^ 53 \<and> real 1 < 2 ^ 53 \<and>
   ''level'' \<notin> fst ` set [(''points'', JNum 250), (''name'', JStr ''Rex'')] \<and>
   (\<exists>pet' l' p'.
      petDocs (example_store\<lparr>petDocs := [''p1'' \<mapsto>
         example_pet(''points'' \<mapsto> JNum 230, ''level'' \<mapsto> JNum 2, ''name'' \<mapsto> JStr ''Rex'')]\<rparr>) ''p1''
        = Some pet' \<and>
      pet' ''level'' = Some (JNum l') \<and> pet' ''points'' = Some (JNum p') \<and>
      l' \<in> \<nat> \<and> 1 \<le> l' \<and> p' \<le> calculateRequiredExp l' \<and>
      ((0::real) \<le> 80 + 250 \<longrightarrow> p' < calculateRequiredExp l') \<and>
      (0 \<le> p' \<or> (l' = 1 \<and> (80::real) + 250 < 0)))"
proof -
  have h1: "petDocs example_store ''p1'' = Some example_pet"
    by (simp add: example_store_def)
  have h2: "example_pet ''points'' = Some (JNum 80)" by (simp add: example_pet_def)
  have h3: "example_pet ''level'' = Some (JNum (real 1))" by (simp add: example_pet_def)
  have h4: "(1::nat) \<le> 1" by simp
  have h5: "\<bar>80 + 250\<bar> < (2::real) ^ 53" by simp
  have h6: "real 1 < 2 ^ 53" by simp
  have h7: "map_of [(''points'', JNum 250), (''name'', JStr ''Rex'')] ''points'' = Some (JNum 250)"
    by simp
  have h8: "''level'' \<notin> fst ` set [(''points'', JNum 250), (''name'', JStr ''Rex'')]" by simp
  from C2_stored_pet_invariant [OF h1 h2 h3 h4 h5 h6 h7 h8 updatePet_example_250] h1 h2 h3 h8
  show ?thesis by simp
qed

text \<open>
  Claim C2 as stated fails twice. On the pet of level 1 with 80 points, the body
  \<open>{points: -110}\<close> is answered 200 and stores the points -30, outside
  \<open>[0, requiredExperience(1))\<close>; the body \<open>{points: 10, level: 0}\<close> is answered 200 and
  stores the level 0, which the loop over the keys writes over the level 1 of the
  leveling block.
\<close>

theorem C2_invariant_counterexample:
  "updatePet example_runtime ''p1'' [(''points'', JNum (- 110))] example_store =
     Some (200, example_store\<lparr>petDocs := [''p1'' \<mapsto>
       example_pet(''points'' \<mapsto> JNum (- 30), ''level'' \<mapsto> JNum 1)]\<rparr>) \<and>
   updatePet example_runtime ''p1'' [(''points'', JNum 10), (''level'', JNum 0)] example_store =
     Some (200, example_store\<lparr>petDocs := [''p1'' \<mapsto>
       example_pet(''points'' \<mapsto> JNum 90, ''level'' \<mapsto> JNum 0)]\<rparr>)"
  by (simp add: updatePet_def levelingBlock_def example_numericOperands applyPoints_level_one
      assign_def example_runtime_def example_store_def)

text \<open>
  Claim C10 (field spread), as the code has it. When the handler answers 200 for a
  stored pet and a body with distinct keys, the body has no key \<open>save\<close>, and the pet
  that was saved has the body's value at every key of the body other than \<open>points\<close>
  and \<open>__proto__\<close>, \<open>level\<close> included, whatever level the leveling block had computed.
  Every property named neither by the body nor \<open>points\<close> nor \<open>level\<close> is unchanged; so
  with a body of \<open>points\<close> alone only \<open>points\<close> and \<open>level\<close> can change.
\<close>

theorem C10_field_spread:
  assumes "petDocs s petId = Some pet" "distinct (map fst updates)"
    and "updatePet rt petId updates s = Some (200, s')"
  shows "\<exists>pet'. petDocs s' petId = Some pet' \<and>
           ''save'' \<notin> fst ` set updates \<and>
           (\<forall>k v. (k, v) \<in> set updates \<and> k \<noteq> ''points'' \<and> k \<noteq> ''__proto__'' \<longrightarrow> pet' k = Some v) \<and>
           (\<forall>k. k \<notin> fst ` set updates \<and> k \<noteq> ''points'' \<and> k \<noteq> ''level'' \<longrightarrow> pet' k = pet k) \<and>
           (map fst updates = [''points''] \<longrightarrow> (\<forall>k. k \<noteq> ''points'' \<and> k \<noteq> ''level'' \<longrightarrow> pet' k = pet k))"
proof -
  from updatePet_200 [OF assms(3,1)] obtain pet1 where
    p1: "(case map_of updates ''points'' of None \<Rightarrow> Some pet
          | Some pts \<Rightarrow> levelingBlock rt pet pts) = Some pet1"
    and nosave: "map_of updates ''save'' = None"
    and s': "s' = s\<lparr>petDocs := (petDocs s)(petId \<mapsto> applyOtherUpdates updates pet1)\<rparr>"
    by blast
  from p1 have frame1: "\<And>k. k \<noteq> ''points'' \<Longrightarrow> k \<noteq> ''level'' \<Longrightarrow> pet1 k = pet k"
    by (auto split: option.splits dest: levelingBlock_frame)
  let ?pet' = "applyOtherUpdates updates pet1"
  have stored: "petDocs s' petId = Some ?pet'" by (simp add: s')
  have ns: "''save'' \<notin> fst ` set updates"
    using nosave by (simp add: map_of_eq_None_iff)
  have copied: "\<forall>k v. (k, v) \<in> set updates \<and> k \<noteq> ''points'' \<and> k \<noteq> ''__proto__'' \<longrightarrow> ?pet' k = Some v"
    using assms(2) by (auto intro: applyOtherUpdates_copied)
  have frame: "\<forall>k. k \<notin> fst ` set updates \<and> k \<noteq> ''points'' \<and> k \<noteq> ''level'' \<longrightarrow> ?pet' k = pet k"
    by (auto simp: applyOtherUpdates_frame frame1)
  have only: "map fst updates = [''points''] \<longrightarrow> (\<forall>k. k \<noteq> ''points'' \<and> k \<noteq> ''level'' \<longrightarrow> ?pet' k = pet k)"
  proof
    assume "map fst updates = [''points'']"
    then have "fst ` set updates = {''points''}"
      by (metis list.set_map list.simps(15) empty_set)
    then show "\<forall>k. k \<noteq> ''points'' \<and> k \<noteq> ''level'' \<longrightarrow> ?pet' k = pet k"
      using frame by simp
  qed
  from stored ns copied frame only show ?thesis by blast
qed

lemma updatePet_example_level:
  "updatePet example_runtime ''p1''
     [(''points'', JNum 250), (''level'', JNum 7), (''name'', JStr ''Rex'')] example_store =
     Some (200, example_store\<lparr>petDocs := [''p1'' \<mapsto>
       example_pet(''points'' \<mapsto> JNum 230, ''level'' \<mapsto> JNum 7, ''name'' \<mapsto> JStr ''Rex'')]\<rparr>)"
  by (simp add: updatePet_def levelingBlock_def example_numericOperands applyPoints_spec_scenario
      assign_def example_runtime_def example_store_def)

theorem C10_field_spread_witness:
  "petDocs example_store ''p1'' = Some example_pet \<and>
   distinct (map fst [(''points'', JNum 250), (''level'', JNum 7), (''name'', JStr ''Rex'')]) \<and>
   (\<exists>pet'. petDocs (example_store\<lparr>petDocs := [''p1'' \<mapsto>
         example_pet(''points'' \<mapsto> JNum 230, ''level'' \<mapsto> JNum 7, ''name'' \<mapsto> JStr ''Rex'')]\<rparr>) ''p1''
       = Some pet' \<and>
     pet' ''level'' = Some (JNum 7) \<and> pet' ''name'' = Some (JStr ''Rex'') \<and>
     pet' ''type'' = example_pet ''type'' \<and> pet' ''user'' = example_pet ''user'')"
proof -
  have h1: "petDocs example_store ''p1'' = Some example_pet"
    by (simp add: example_store_def)
  have h2: "distinct (map fst [(''points'', JNum 250), (''level'', JNum 7), (''name'', JStr ''Rex'')])"
    by simp
  from C10_field_spread [OF h1 h2 updatePet_example_level] h1 h2
  show ?thesis by (auto simp: example_pet_def)
qed

text \<open>
  Claim C10 as stated fails for two keys. With the body \<open>{save: "x"}\<close> the loop writes
  \<open>"x"\<close> over the method that line 336 calls: the handler answers 500 and the stored pet
  is as it was, without a key \<open>save\<close>. With the body \<open>{__proto__: "x"}\<close> the assignment
  writes nothing, and the handler answers 200 with the pet as it was.
\<close>

theorem C10_every_key_counterexample:
  "updatePet example_runtime ''p1'' [(''save'', JStr ''x'')] example_store = Some (500, example_store) \<and>
   updatePet example_runtime ''p1'' [(''__proto__'', JStr ''x'')] example_store = Some (200, example_store) \<and>
   example_pet ''save'' = None \<and> example_pet ''__proto__'' = None"
  by (simp add: updatePet_def assign_def example_runtime_def example_store_def example_pet_def)

section \<open>Properties of the deletions\<close>

lemma set_pull: "set (pull xs x) = set xs - {x}"
  by (auto simp: pull_def)

text \<open>
  Claim C4 (task deletion detaches cleanly): in a store whose note lists are
  consistent, deleting a stored task whose owning note is stored answers 200,
  removes the task's record and pulls its id out of the owning note's list; after
  it no note's list holds the id, the note lists are still consistent, and the
  folders and users are untouched.
\<close>

theorem C4_task_deletion:
  assumes "taskId \<noteq> []" "taskDocs s taskId = Some tsk" "noteDocs s (task_note tsk) = Some nt"
    and "notes_consistent s"
  shows "\<exists>s' nt'. deleteTask taskId s = (200, s') \<and> taskDocs s' taskId = None \<and>
           noteDocs s' (task_note tsk) = Some nt' \<and> note_tasks nt' = pull (note_tasks nt) taskId \<and>
           (\<forall>nid n. noteDocs s' nid = Some n \<longrightarrow> taskId \<notin> set (note_tasks n)) \<and>
           notes_consistent s' \<and> folderDocs s' = folderDocs s \<and> userDocs s' = userDocs s"
proof -
  let ?nt' = "nt\<lparr>note_tasks := pull (note_tasks nt) taskId\<rparr>"
  let ?s' = "s\<lparr>noteDocs := (noteDocs s)(task_note tsk \<mapsto> ?nt'), taskDocs := (taskDocs s)(taskId := None)\<rparr>"
  have run: "deleteTask taskId s = (200, ?s')"
    using assms(1-3) by (simp add: deleteTask_def task_deleteOne_def task_pre_deleteOne_def)
  have absent: "\<forall>nid n. noteDocs ?s' nid = Some n \<longrightarrow> taskId \<notin> set (note_tasks n)"
  proof (intro allI impI)
    fix nid n
    assume n: "noteDocs ?s' nid = Some n"
    show "taskId \<notin> set (note_tasks n)"
    proof (cases "nid = task_note tsk")
      case True
      with n show ?thesis by (auto simp: set_pull)
    next
      case False
      with n have "noteDocs s nid = Some n" by simp
      with assms(2,4) False show ?thesis
        by (fastforce simp: notes_consistent_def)
    qed
  qed
  have cons: "notes_consistent ?s'"
    unfolding notes_consistent_def
  proof (intro allI impI ballI)
    fix nid n tid
    assume n: "noteDocs ?s' nid = Some n" and tid: "tid \<in> set (note_tasks n)"
    from absent n tid have ne: "tid \<noteq> taskId" by blast
    have "\<exists>n0. noteDocs s nid = Some n0 \<and> tid \<in> set (note_tasks n0)"
      using n tid assms(3) by (cases "nid = task_note tsk") (auto simp: set_pull)
    then have "\<exists>t. taskDocs s tid = Some t \<and> task_note t = nid"
      using assms(4) by (auto simp: notes_consistent_def)
    with ne show "\<exists>t. taskDocs ?s' tid = Some t \<and> task_note t = nid" by simp
  qed
  from run absent cons show ?thesis
    by (intro exI [of _ ?s'] exI [of _ ?nt']) simp
qed

lemma example_store_consistent: "notes_consistent example_store"
  by (auto simp: notes_consistent_def example_store_def example_task_def split: if_splits)

theorem C4_task_deletion_witness:
  "''t1'' \<noteq> [] \<and> notes_consistent example_store \<and>
   (\<exists>s' nt'. deleteTask ''t1'' example_store = (200, s') \<and> taskDocs s' ''t1'' = None \<and>
      noteDocs s' ''n1'' = Some nt' \<and> note_tasks nt' = [''t2''])"
  using C4_task_deletion [of "''t1''" example_store "example_task ''n1''"
      "\<lparr>note_folder = ''f1'', note_tasks = [''t1'', ''t2'']\<rparr>"] example_store_consistent
  by (auto simp: example_store_def example_task_def pull_def)


text \<open>
  When the owning note of a task is not stored, the hook fails before anything is
  written: the handler answers 500 and the task stays.
\<close>

lemma deleteTask_orphan:
  "taskId \<noteq> [] \<Longrightarrow> taskDocs s taskId = Some tsk \<Longrightarrow> noteDocs s (task_note tsk) = None \<Longrightarrow>
   deleteTask taskId s = (500, s)"
  by (simp add: deleteTask_def task_deleteOne_def task_pre_deleteOne_def)

text \<open>The steps of the cascade only remove tasks and notes.\<close>

lemma shrinks_refl: "shrinks s s"
  by (simp add: shrinks_def)

lemma shrinks_task: "shrinks s s' \<Longrightarrow> taskDocs s tid = None \<Longrightarrow> taskDocs s' tid = None"
  by (simp add: shrinks_def)

lemma shrinks_note: "shrinks s s' \<Longrightarrow> noteDocs s nid = None \<Longrightarrow> noteDocs s' nid = None"
  by (simp add: shrinks_def)

lemma shrinks_list:
  "shrinks s s' \<Longrightarrow> noteDocs s nid = Some n \<Longrightarrow> noteDocs s' nid = Some n' \<Longrightarrow>
   tid \<in> set (note_tasks n) \<Longrightarrow> tid \<in> set (note_tasks n') \<or> taskDocs s' tid = None"
  by (auto simp: shrinks_def)

lemma shrinks_trans:
  assumes "shrinks a b" "shrinks b c"
  shows "shrinks a c"
  unfolding shrinks_def
proof (intro conjI allI impI ballI)
  fix tid assume "taskDocs a tid = None"
  then show "taskDocs c tid = None" using assms by (simp add: shrinks_def)
next
  fix nid assume "noteDocs a nid = None"
  then show "noteDocs c nid = None" using assms by (simp add: shrinks_def)
next
  fix nid n n' tid
  assume a: "noteDocs a nid = Some n" and c: "noteDocs c nid = Some n'" and t: "tid \<in> set (note_tasks n)"
  from c assms(2) obtain m where b: "noteDocs b nid = Some m"
    by (cases "noteDocs b nid") (auto simp: shrinks_def)
  from assms(1) a b t have "tid \<in> set (note_tasks m) \<or> taskDocs b tid = None"
    by (rule shrinks_list)
  then show "tid \<in> set (note_tasks n') \<or> taskDocs c tid = None"
  proof
    assume "tid \<in> set (note_tasks m)"
    with assms(2) b c show ?thesis by (intro shrinks_list)
  next
    assume "taskDocs b tid = None"
    with assms(2) show ?thesis by (simp add: shrinks_def)
  qed
qed

lemma deleteSubtree_Task_ok:
  assumes "deleteSubtree_Task taskId s = (None, s')"
  shows "shrinks s s' \<and> taskDocs s' taskId = None \<and>
         folderDocs s' = folderDocs s \<and> userDocs s' = userDocs s"
proof -
  from assms obtain tsk nt where
    tsk: "taskDocs s taskId = Some tsk" and nt: "noteDocs s (task_note tsk) = Some nt"
    and s': "s' = s\<lparr>noteDocs := (noteDocs s)(task_note tsk \<mapsto>
                       nt\<lparr>note_tasks := pull (note_tasks nt) taskId\<rparr>),
                   taskDocs := (taskDocs s)(taskId := None)\<rparr>"
    by (auto simp: deleteSubtree_Task_def task_deleteOne_def task_pre_deleteOne_def
        split: option.splits)
  show ?thesis
    unfolding s' shrinks_def using nt by (auto simp: set_pull)
qed

lemma forEach_Task_ok:
  "forEach deleteSubtree_Task tids s = (None, s') \<Longrightarrow>
   shrinks s s' \<and> (\<forall>tid \<in> set tids. taskDocs s' tid = None) \<and>
   folderDocs s' = folderDocs s \<and> userDocs s' = userDocs s"
proof (induction tids arbitrary: s)
  case Nil
  then show ?case by (simp add: shrinks_refl)
next
  case (Cons x xs)
  from Cons.prems obtain s1 where
    x: "deleteSubtree_Task x s = (None, s1)" and xs: "forEach deleteSubtree_Task xs s1 = (None, s')"
    by (auto split: prod.splits option.splits)
  note h1 = deleteSubtree_Task_ok [OF x]
  note h2 = Cons.IH [OF xs]
  have "shrinks s s'" using h1 h2 shrinks_trans by blast
  moreover have "taskDocs s' x = None" using h1 h2 by (simp add: shrinks_def)
  ultimately show ?case using h1 h2 by simp
qed

lemma deleteSubtree_Note_ok:
  assumes "deleteSubtree_Note noteId s = (None, s')"
  shows "shrinks s s' \<and> noteDocs s' noteId = None \<and>
         (\<forall>nt. noteDocs s noteId = Some nt \<longrightarrow> (\<forall>tid \<in> set (note_tasks nt). taskDocs s' tid = None)) \<and>
         userDocs s' = userDocs s"
proof -
  from assms obtain nt s1 fld where
    nt: "noteDocs s noteId = Some nt"
    and each: "forEach deleteSubtree_Task (note_tasks nt) s = (None, s1)"
    and fld: "folderDocs (s1\<lparr>noteDocs := (noteDocs s1)(noteId := None)\<rparr>) (note_folder nt) = Some fld"
    and s': "s' = s1\<lparr>noteDocs := (noteDocs s1)(noteId := None),
                   folderDocs := (folderDocs s1)(note_folder nt \<mapsto>
                       fld\<lparr>folder_notes := pull (folder_notes fld) noteId\<rparr>)\<rparr>"
    by (auto simp: deleteSubtree_Note_def detachChild_Folder_def split: option.splits prod.splits)
  note h = forEach_Task_ok [OF each]
  have "shrinks s1 s'" unfolding s' shrinks_def by auto
  with h have "shrinks s s'" using shrinks_trans by blast
  moreover have "noteDocs s' noteId = None" by (simp add: s')
  moreover have "\<forall>tid \<in> set (note_tasks nt). taskDocs s' tid = None"
    using h by (simp add: s')
  moreover have "userDocs s' = userDocs s" using h by (simp add: s')
  ultimately show ?thesis using nt by simp
qed

lemma forEach_Note_shrinks:
  "forEach deleteSubtree_Note nids s = (None, s') \<Longrightarrow> shrinks s s' \<and> userDocs s' = userDocs s"
proof (induction nids arbitrary: s)
  case Nil
  then show ?case by (simp add: shrinks_refl)
next
  case (Cons x xs)
  from Cons.prems obtain s1 where
    x: "deleteSubtree_Note x s = (None, s1)" and xs: "forEach deleteSubtree_Note xs s1 = (None, s')"
    by (auto split: prod.splits option.splits)
  from deleteSubtree_Note_ok [OF x] Cons.IH [OF xs] show ?case
    using shrinks_trans by auto
qed

lemma forEach_Note_ok:
  "forEach deleteSubtree_Note nids s1 = (None, s2) \<Longrightarrow> shrinks s0 s1 \<Longrightarrow>
   (\<forall>nid \<in> set nids. noteDocs s2 nid = None \<and>
      (\<forall>nt. noteDocs s0 nid = Some nt \<longrightarrow> (\<forall>tid \<in> set (note_tasks nt). taskDocs s2 tid = None)))"
proof (induction nids arbitrary: s1)
  case Nil
  then show ?case by simp
next
  case (Cons x xs)
  from Cons.prems(1) obtain sx where
    x: "deleteSubtree_Note x s1 = (None, sx)" and xs: "forEach deleteSubtree_Note xs sx = (None, s2)"
    by (auto split: prod.splits option.splits)
  note hx = deleteSubtree_Note_ok [OF x]
  from hx have s1x: "shrinks s1 sx" by simp
  with Cons.prems(2) have s0x: "shrinks s0 sx" using shrinks_trans by blast
  from forEach_Note_shrinks [OF xs] have sx2: "shrinks sx s2" by simp
  have rest: "\<forall>nid \<in> set xs. noteDocs s2 nid = None \<and>
      (\<forall>nt. noteDocs s0 nid = Some nt \<longrightarrow> (\<forall>tid \<in> set (note_tasks nt). taskDocs s2 tid = None))"
    using Cons.IH [OF xs s0x] .
  have x_gone: "noteDocs s2 x = None"
    using hx sx2 by (simp add: shrinks_def)
  have x_tasks: "\<forall>nt. noteDocs s0 x = Some nt \<longrightarrow> (\<forall>tid \<in> set (note_tasks nt). taskDocs s2 tid = None)"
  proof (intro allI impI ballI)
    fix nt tid
    assume nt: "noteDocs s0 x = Some nt" and tid: "tid \<in> set (note_tasks nt)"
    from x obtain n1 where n1: "noteDocs s1 x = Some n1"
      by (auto simp: deleteSubtree_Note_def split: option.splits)
    from Cons.prems(2) nt n1 tid have "tid \<in> set (note_tasks n1) \<or> taskDocs s1 tid = None"
      by (rule shrinks_list)
    then have "taskDocs sx tid = None"
    proof
      assume "tid \<in> set (note_tasks n1)"
      with hx n1 show ?thesis by simp
    next
      assume "taskDocs s1 tid = None"
      with s1x show ?thesis by (simp add: shrinks_def)
    qed
    with sx2 show "taskDocs s2 tid = None" by (simp add: shrinks_def)
  qed
  from rest x_gone x_tasks show ?case by simp
qed

text \<open>
  On a well-formed folder the cascade does not fail, and \<open>deleteFolder\<close> answers 200.
\<close>

lemma deleteSubtree_Task_effect:
  assumes "taskDocs s tid = Some tsk" "noteDocs s (task_note tsk) \<noteq> None"
  shows "\<exists>s'. deleteSubtree_Task tid s = (None, s') \<and>
           taskDocs s' = (taskDocs s)(tid := None) \<and>
           (\<forall>m. m \<noteq> task_note tsk \<longrightarrow> noteDocs s' m = noteDocs s m) \<and>
           noteDocs s' (task_note tsk) \<noteq> None \<and>
           folderDocs s' = folderDocs s \<and> userDocs s' = userDocs s"
  using assms
  by (auto simp: deleteSubtree_Task_def task_deleteOne_def task_pre_deleteOne_def)

lemma forEach_Task_effect:
  "distinct tids \<Longrightarrow> noteDocs s nid \<noteq> None \<Longrightarrow>
   \<forall>tid \<in> set tids. \<exists>tsk. taskDocs s tid = Some tsk \<and> task_note tsk = nid \<Longrightarrow>
   \<exists>s'. forEach deleteSubtree_Task tids s = (None, s') \<and>
     (\<forall>x. taskDocs s' x = (if x \<in> set tids then None else taskDocs s x)) \<and>
     (\<forall>m. m \<noteq> nid \<longrightarrow> noteDocs s' m = noteDocs s m) \<and>
     noteDocs s' nid \<noteq> None \<and>
     folderDocs s' = folderDocs s \<and> userDocs s' = userDocs s"
proof (induction tids arbitrary: s)
  case Nil
  then show ?case by simp
next
  case (Cons x xs)
  from Cons.prems(3) obtain tsk where tsk: "taskDocs s x = Some tsk" "task_note tsk = nid"
    by auto
  with Cons.prems(2) have "noteDocs s (task_note tsk) \<noteq> None" by simp
  from deleteSubtree_Task_effect [OF tsk(1) this] tsk(2) obtain s1 where
    s1: "deleteSubtree_Task x s = (None, s1)" "taskDocs s1 = (taskDocs s)(x := None)"
        "\<forall>m. m \<noteq> nid \<longrightarrow> noteDocs s1 m = noteDocs s m" "noteDocs s1 nid \<noteq> None"
        "folderDocs s1 = folderDocs s" "userDocs s1 = userDocs s"
    by auto
  have d: "distinct xs" and nx: "x \<notin> set xs" using Cons.prems(1) by simp_all
  have "\<forall>tid \<in> set xs. \<exists>tsk. taskDocs s1 tid = Some tsk \<and> task_note tsk = nid"
    using Cons.prems(3) nx s1(2) by auto
  from Cons.IH [OF d s1(4) this] obtain s' where
    s': "forEach deleteSubtree_Task xs s1 = (None, s')"
        "\<forall>y. taskDocs s' y = (if y \<in> set xs then None else taskDocs s1 y)"
        "\<forall>m. m \<noteq> nid \<longrightarrow> noteDocs s' m = noteDocs s1 m" "noteDocs s' nid \<noteq> None"
        "folderDocs s' = folderDocs s1" "userDocs s' = userDocs s1"
    by blast
  have "forEach deleteSubtree_Task (x # xs) s = (None, s')"
    using s1(1) s'(1) by simp
  moreover have "\<forall>y. taskDocs s' y = (if y \<in> set (x # xs) then None else taskDocs s y)"
    using s'(2) s1(2) by simp
  moreover have "\<forall>m. m \<noteq> nid \<longrightarrow> noteDocs s' m = noteDocs s m"
    using s'(3) s1(3) by simp
  ultimately show ?case
    using s'(4,5,6) s1(5,6) by (intro exI [of _ s']) simp
qed

lemma deleteSubtree_Note_effect:
  assumes "noteDocs s nid = Some nt" "note_wellformed s nid"
  shows "\<exists>s'. deleteSubtree_Note nid s = (None, s') \<and>
     (\<forall>x. taskDocs s' x = (if x \<in> set (note_tasks nt) then None else taskDocs s x)) \<and>
     (\<forall>m. noteDocs s' m = (if m = nid then None else noteDocs s m)) \<and>
     (\<forall>f. folderDocs s' f = None \<longleftrightarrow> folderDocs s f = None) \<and>
     userDocs s' = userDocs s"
proof -
  from assms have d: "distinct (note_tasks nt)" and f: "folderDocs s (note_folder nt) \<noteq> None"
    and ts: "\<forall>tid \<in> set (note_tasks nt). \<exists>tsk. taskDocs s tid = Some tsk \<and> task_note tsk = nid"
    by (auto simp: note_wellformed_def)
  have "noteDocs s nid \<noteq> None" using assms(1) by simp
  from forEach_Task_effect [OF d this ts] obtain s1 where
    s1: "forEach deleteSubtree_Task (note_tasks nt) s = (None, s1)"
        "\<forall>x. taskDocs s1 x = (if x \<in> set (note_tasks nt) then None else taskDocs s x)"
        "\<forall>m. m \<noteq> nid \<longrightarrow> noteDocs s1 m = noteDocs s m"
        "folderDocs s1 = folderDocs s" "userDocs s1 = userDocs s"
    by blast
  from f s1(4) obtain fld where fld: "folderDocs s1 (note_folder nt) = Some fld" by auto
  let ?s' = "s1\<lparr>noteDocs := (noteDocs s1)(nid := None),
                 folderDocs := (folderDocs s1)(note_folder nt \<mapsto>
                     fld\<lparr>folder_notes := pull (folder_notes fld) nid\<rparr>)\<rparr>"
  have "deleteSubtree_Note nid s = (None, ?s')"
    using assms(1) s1(1) fld by (simp add: deleteSubtree_Note_def detachChild_Folder_def)
  moreover have "\<forall>f. folderDocs ?s' f = None \<longleftrightarrow> folderDocs s f = None"
    using fld s1(4) by auto
  ultimately show ?thesis
    using s1(2,3,5) by (intro exI [of _ ?s']) simp
qed

lemma forEach_Note_succeeds:
  "distinct nids \<Longrightarrow> \<forall>nid \<in> set nids. note_wellformed s nid \<Longrightarrow>
   \<exists>s'. forEach deleteSubtree_Note nids s = (None, s') \<and>
     (\<forall>f. folderDocs s' f = None \<longleftrightarrow> folderDocs s f = None) \<and> userDocs s' = userDocs s"
proof (induction nids arbitrary: s)
  case Nil
  then show ?case by simp
next
  case (Cons x xs)
  from Cons.prems(2) have wx: "note_wellformed s x" by simp
  then obtain nt where nt: "noteDocs s x = Some nt"
    and own: "\<forall>tid \<in> set (note_tasks nt). \<exists>tsk. taskDocs s tid = Some tsk \<and> task_note tsk = x"
    by (auto simp: note_wellformed_def)
  from deleteSubtree_Note_effect [OF nt wx] obtain s1 where
    s1: "deleteSubtree_Note x s = (None, s1)"
        "\<forall>y. taskDocs s1 y = (if y \<in> set (note_tasks nt) then None else taskDocs s y)"
        "\<forall>m. noteDocs s1 m = (if m = x then None else noteDocs s m)"
        "\<forall>f. folderDocs s1 f = None \<longleftrightarrow> folderDocs s f = None"
        "userDocs s1 = userDocs s"
    by blast
  have d: "distinct xs" and nx: "x \<notin> set xs" using Cons.prems(1) by simp_all
  have "\<forall>nid \<in> set xs. note_wellformed s1 nid"
  proof
    fix nid assume nid: "nid \<in> set xs"
    with nx have ne: "nid \<noteq> x" by auto
    from nid Cons.prems(2) obtain n where
      n: "noteDocs s nid = Some n" "distinct (note_tasks n)" "folderDocs s (note_folder n) \<noteq> None"
         "\<forall>tid \<in> set (note_tasks n). \<exists>tsk. taskDocs s tid = Some tsk \<and> task_note tsk = nid"
      by (auto simp: note_wellformed_def)
    have "\<forall>tid \<in> set (note_tasks n). \<exists>tsk. taskDocs s1 tid = Some tsk \<and> task_note tsk = nid"
    proof
      fix tid assume t: "tid \<in> set (note_tasks n)"
      with n(4) obtain tsk where tsk: "taskDocs s tid = Some tsk" "task_note tsk = nid" by auto
      have "tid \<notin> set (note_tasks nt)"
      proof
        assume "tid \<in> set (note_tasks nt)"
        with own tsk ne show False by auto
      qed
      with s1(2) tsk show "\<exists>tsk. taskDocs s1 tid = Some tsk \<and> task_note tsk = nid" by simp
    qed
    with n ne s1(3,4) show "note_wellformed s1 nid"
      by (simp add: note_wellformed_def)
  qed
  from Cons.IH [OF d this] obtain s' where
    "forEach deleteSubtree_Note xs s1 = (None, s')"
    "\<forall>f. folderDocs s' f = None \<longleftrightarrow> folderDocs s1 f = None" "userDocs s' = userDocs s1"
    by blast
  with s1 show ?case by (intro exI [of _ s']) simp
qed

lemma deleteFolder_succeeds:
  assumes "folderId \<noteq> []" "folder_wellformed s folderId"
  shows "fst (deleteFolder folderId s) = 200"
proof -
  from assms(2) obtain fld where fld: "folderDocs s folderId = Some fld"
    and d: "distinct (folder_notes fld)" and u: "userDocs s (folder_user fld) \<noteq> None"
    and ns: "\<forall>nid \<in> set (folder_notes fld). note_wellformed s nid"
    by (auto simp: folder_wellformed_def)
  from forEach_Note_succeeds [OF d ns] obtain s1 where
    s1: "forEach deleteSubtree_Note (folder_notes fld) s = (None, s1)" "userDocs s1 = userDocs s"
    by blast
  with u obtain usr where "userDocs s1 (folder_user fld) = Some usr" by auto
  with assms(1) fld s1(1) show ?thesis
    by (simp add: deleteFolder_def deleteSubtree_Folder_def detachChild_User_def)
qed

text \<open>
  Claim C3 (cascade completeness): when \<open>deleteFolder\<close> answers 200 for a stored folder,
  every note in the folder's list and every task in the list of such a note (as the
  store had them before the call) is gone from the store, the folder's record is
  gone, and the list of the folder's user no longer holds the folder's id.
\<close>

theorem C3_cascade_completeness:
  assumes "folderDocs s folderId = Some fld" "deleteFolder folderId s = (200, s')"
  shows "(\<forall>nid \<in> set (folder_notes fld). noteDocs s' nid = None \<and>
            (\<forall>nt. noteDocs s nid = Some nt \<longrightarrow> (\<forall>tid \<in> set (note_tasks nt). taskDocs s' tid = None))) \<and>
         (\<exists>usr. userDocs s' (folder_user fld) = Some usr \<and> folderId \<notin> set (user_folders usr)) \<and>
         folderDocs s' folderId = None"
proof -
  from assms have sub: "deleteSubtree_Folder folderId s = (None, s')"
    by (auto simp: deleteFolder_def split: if_splits prod.splits option.splits)
  with assms(1) obtain s1 usr where
    each: "forEach deleteSubtree_Note (folder_notes fld) s = (None, s1)"
    and s': "s' = s1\<lparr>folderDocs := (folderDocs s1)(folderId := None),
                   userDocs := (userDocs s1)(folder_user fld \<mapsto>
                       usr\<lparr>user_folders := pull (user_folders usr) folderId\<rparr>)\<rparr>"
    by (auto simp: deleteSubtree_Folder_def detachChild_User_def split: option.splits prod.splits)
  from forEach_Note_ok [OF each shrinks_refl]
  have "\<forall>nid \<in> set (folder_notes fld). noteDocs s1 nid = None \<and>
      (\<forall>nt. noteDocs s nid = Some nt \<longrightarrow> (\<forall>tid \<in> set (note_tasks nt). taskDocs s1 tid = None))" .
  then show ?thesis
    by (simp add: s' set_pull)
qed

lemma example_deleteFolder: "fst (deleteFolder ''f1'' example_store) = 200"
  by (simp add: deleteFolder_def deleteSubtree_Folder_def deleteSubtree_Note_def
      deleteSubtree_Task_def task_deleteOne_def task_pre_deleteOne_def detachChild_Folder_def
      detachChild_User_def pull_def example_store_def example_task_def)

theorem C3_cascade_completeness_witness:
  "fst (deleteFolder ''f1'' example_store) = 200 \<and>
   noteDocs (snd (deleteFolder ''f1'' example_store)) ''n1'' = None \<and>
   noteDocs (snd (deleteFolder ''f1'' example_store)) ''n2'' = None \<and>
   taskDocs (snd (deleteFolder ''f1'' example_store)) ''t1'' = None \<and>
   taskDocs (snd (deleteFolder ''f1'' example_store)) ''t2'' = None \<and>
   taskDocs (snd (deleteFolder ''f1'' example_store)) ''t3'' = None \<and>
   folderDocs (snd (deleteFolder ''f1'' example_store)) ''f1'' = None \<and>
   (\<exists>usr. userDocs (snd (deleteFolder ''f1'' example_store)) ''u1'' = Some usr \<and>
      ''f1'' \<notin> set (user_folders usr))"
proof -
  have h1: "folderDocs example_store ''f1'' =
      Some \<lparr>folder_user = ''u1'', folder_name = ''home'', folder_notes = [''n1'', ''n2'']\<rparr>"
    by (simp add: example_store_def)
  have h2: "deleteFolder ''f1'' example_store = (200, snd (deleteFolder ''f1'' example_store))"
    using example_deleteFolder by (metis prod.collapse)
  have n1: "noteDocs example_store ''n1'' = Some \<lparr>note_folder = ''f1'', note_tasks = [''t1'', ''t2'']\<rparr>"
    by (simp add: example_store_def)
  have n2: "noteDocs example_store ''n2'' = Some \<lparr>note_folder = ''f1'', note_tasks = [''t3'']\<rparr>"
    by (simp add: example_store_def)
  from C3_cascade_completeness [OF h1 h2] n1 n2 example_deleteFolder show ?thesis
    by simp
qed

end
